theory Spec2Isabelle
  imports Complex_Main "HOL-Library.Sublist"
begin

section \<open>Strings and the library operations the chunker uses\<close>

text \<open>
  A Python \<open>str\<close> is a sequence of Unicode code points. The splitter table of the
  source holds code points beyond one byte (the curly quotes, the dashes, the ellipsis),
  and \<open>list(text)\<close> cuts per code point, so a string is modelled as the list of its code
  points, each a natural number.
\<close>

type_synonym str = "nat list"

datatype error = ValueError | IndexError | ZeroDivisionError | RecursionError

text \<open>\<open>sep.join(pieces)\<close>.\<close>

fun join :: "str \<Rightarrow> str list \<Rightarrow> str" where
  "join sep [] = []"
| "join sep [p] = p"
| "join sep (p # q # ps) = p @ sep @ join sep (q # ps)"

text \<open>
  \<open>text.split(sep)\<close>: the text is scanned from the left; at an occurrence of the
  separator the piece collected so far is closed and the scan resumes behind the
  occurrence. An empty separator raises \<open>ValueError\<close>.
\<close>

function split_from :: "str \<Rightarrow> str \<Rightarrow> str \<Rightarrow> str list" where
  "split_from sep cur [] = [cur]"
| "split_from sep cur (c # cs) =
     (if sep \<noteq> [] \<and> prefix sep (c # cs)
      then cur # split_from sep [] (drop (length sep) (c # cs))
      else split_from sep (cur @ [c]) cs)"
  by pat_completeness auto
termination
  by (relation "measure (\<lambda>(sep, cur, t). length t)") (auto simp: Suc_le_eq)

definition py_split :: "str \<Rightarrow> str \<Rightarrow> error + str list" where
  "py_split text sep = (if sep = [] then Inl ValueError else Inr (split_from sep [] text))"

text \<open>
  \<open>re.findall\<close> of a pattern \<open>[...]+\<close>: the maximal runs of characters of the class,
  from left to right.
\<close>

function findall_runs :: "(nat \<Rightarrow> bool) \<Rightarrow> str \<Rightarrow> str list" where
  "findall_runs P [] = []"
| "findall_runs P (c # cs) =
     (if P c then (c # takeWhile P cs) # findall_runs P (dropWhile P cs)
      else findall_runs P cs)"
  by pat_completeness auto
termination
  by (relation "measure (\<lambda>(P, t). length t)") (auto simp: less_Suc_eq_le length_dropWhile_le)

text \<open>
  Python compares strings lexicographically by code point; \<open>max\<close> keeps the first
  greatest element and raises \<open>ValueError\<close> on an empty sequence.
\<close>

fun str_less :: "str \<Rightarrow> str \<Rightarrow> bool" where
  "str_less [] [] = False"
| "str_less [] (y # ys) = True"
| "str_less (x # xs) [] = False"
| "str_less (x # xs) (y # ys) = (x < y \<or> (x = y \<and> str_less xs ys))"

definition py_max :: "str list \<Rightarrow> error + str" where
  "py_max xs =
     (case xs of
        [] \<Rightarrow> Inl ValueError
      | x # rest \<Rightarrow> Inr (foldl (\<lambda>m s. if str_less m s then s else m) x rest))"

text \<open>
  The class \<open>\s\<close> of a \<open>str\<close> pattern: the code points Python counts as whitespace.
\<close>

definition is_space :: "nat \<Rightarrow> bool" where
  "is_space c =
     ((9 \<le> c \<and> c \<le> 13) \<or> (28 \<le> c \<and> c \<le> 32) \<or> c = 133 \<or> c = 160 \<or> c = 5760
      \<or> (8192 \<le> c \<and> c \<le> 8202) \<or> c = 8232 \<or> c = 8233 \<or> c = 8239 \<or> c = 8287
      \<or> c = 12288)"

definition is_newline :: "nat \<Rightarrow> bool" where
  "is_newline c = (c = 13 \<or> c = 10)"

definition is_tab :: "nat \<Rightarrow> bool" where
  "is_tab c = (c = 9)"

section \<open>The splitter selector\<close>

text \<open>
  The table \<open>_NON_WHITESPACE_SEMANTIC_SPLITTERS\<close>, in the order of the source:
  \<open>. ? ! *\<close>, then \<open>; , ( ) [ ]\<close>, the four curly quotes, \<open>' " `\<close>, then \<open>:\<close>, the em dash
  and the ellipsis, then \<open>/ \\<close>, the en dash, \<open>&\<close> and \<open>-\<close>.
\<close>

definition NON_WHITESPACE_SEMANTIC_SPLITTERS :: "nat list" where
  "NON_WHITESPACE_SEMANTIC_SPLITTERS =
     [46, 63, 33, 42,
      59, 44, 40, 41, 91, 93, 8220, 8221, 8216, 8217, 39, 34, 96,
      58, 8212, 8230,
      47, 92, 8211, 38, 45]"

text \<open>The common exit of \<open>_split_text\<close>: \<open>return splitter, flag, text.split(splitter)\<close>.\<close>

definition split_with :: "str \<Rightarrow> bool \<Rightarrow> str \<Rightarrow> error + (str \<times> bool \<times> str list)" where
  "split_with splitter splitter_is_whitespace text =
     (case py_split text splitter of
        Inl e \<Rightarrow> Inl e
      | Inr pieces \<Rightarrow> Inr (splitter, splitter_is_whitespace, pieces))"

definition max_run :: "(nat \<Rightarrow> bool) \<Rightarrow> str \<Rightarrow> error + (str \<times> bool \<times> str list)" where
  "max_run P text =
     (case py_max (findall_runs P text) of
        Inl e \<Rightarrow> Inl e
      | Inr splitter \<Rightarrow> split_with splitter True text)"

definition split_text :: "str \<Rightarrow> error + (str \<times> bool \<times> str list)" where
  "split_text text =
     (if 10 \<in> set text \<or> 13 \<in> set text then max_run is_newline text
      else if 9 \<in> set text then max_run is_tab text
      else if list_ex is_space text then max_run is_space text
      else (case find (\<lambda>s. s \<in> set text) NON_WHITESPACE_SEMANTIC_SPLITTERS of
              Some s \<Rightarrow> split_with [s] False text
            | None \<Rightarrow> Inr ([], True, map (\<lambda>c. [c]) text)))"

section \<open>The merge engine\<close>

text \<open>
  \<open>bisect_left(a, x)\<close> of the standard library, as its loop is written: halve the
  window \<open>[lo, hi)\<close> until it is empty. The list holds integers, the target is a float.
\<close>

function bisect_loop :: "int list \<Rightarrow> rat \<Rightarrow> nat \<Rightarrow> nat \<Rightarrow> nat" where
  "bisect_loop a x lo hi =
     (if lo < hi
      then (if of_int (a ! ((lo + hi) div 2)) < x
            then bisect_loop a x ((lo + hi) div 2 + 1) hi
            else bisect_loop a x lo ((lo + hi) div 2))
      else lo)"
  by pat_completeness auto
termination
  by (relation "measure (\<lambda>(a, x, lo, hi). hi - lo)") auto

declare bisect_loop.simps [simp del]

definition bisect_left :: "int list \<Rightarrow> rat \<Rightarrow> nat" where
  "bisect_left a x = bisect_loop a x 0 (length a)"

text \<open>\<open>itertools.accumulate(xs, initial=a)\<close>: the running sums, starting with \<open>a\<close>.\<close>

fun accumulate :: "int list \<Rightarrow> int \<Rightarrow> int list" where
  "accumulate [] a = [a]"
| "accumulate (x # xs) a = a # accumulate xs (a + x)"

text \<open>
  The list \<open>cumulative_lengths\<close> of \<open>merge_splits\<close>: the running sums of the piece
  lengths, with the last sum appended once more.
\<close>

definition cumulative_lengths :: "str list \<Rightarrow> int list" where
  "cumulative_lengths splits =
     (let acc = accumulate (map (\<lambda>s. int (length s)) splits) 0
      in acc @ [last acc])"

text \<open>A slice \<open>xs[lo : hi]\<close> with \<open>0 \<le> lo\<close> and \<open>0 \<le> hi\<close>.\<close>

definition slice :: "nat \<Rightarrow> nat \<Rightarrow> 'a list \<Rightarrow> 'a list" where
  "slice lo hi xs = take (hi - lo) (drop lo xs)"

text \<open>A slice \<open>xs[:k]\<close>, where a negative \<open>k\<close> counts from the end.\<close>

definition py_take :: "int \<Rightarrow> 'a list \<Rightarrow> 'a list" where
  "py_take k xs = (if 0 \<le> k then take (nat k) xs else take (length xs - nat (- k)) xs)"

text \<open>
  The estimate \<open>average\<close> is a Python float. The model computes with exact rationals and
  passes every result of a float operation through a rounding function \<open>fl\<close>, which the
  theorems leave arbitrary: the literal \<open>0.2\<close> is \<open>fl (1/5)\<close>, the product
  \<open>chunk_size * average\<close> converts the integer and rounds the product, and the true
  division \<open>cumulative_lengths[midpoint] / tokens\<close> rounds the quotient, raising
  \<open>ZeroDivisionError\<close> when \<open>tokens\<close> is zero. Comparing an integer with a float is exact.
  Integers beyond the range of a double are outside the model.

  The variables \<open>low\<close>, \<open>high\<close> and \<open>midpoint\<close> are never negative inside the loop
  (\<open>low < high\<close> holds where \<open>high - 1\<close> is computed), so they are natural numbers here;
  the subtraction \<open>low - 1\<close> of the \<open>return\<close> is done on integers.
\<close>

function merge_loop ::
  "(rat \<Rightarrow> rat) \<Rightarrow> str list \<Rightarrow> int \<Rightarrow> str \<Rightarrow> (str \<Rightarrow> int) \<Rightarrow> int list \<Rightarrow> rat \<Rightarrow> nat \<Rightarrow> nat
     \<Rightarrow> error + nat" where
  "merge_loop fl splits chunk_size splitter token_counter cl average low high =
     (if low < high then
        (let i = bisect_left (slice low (high + 1) cl) (fl (fl (of_int chunk_size) * average));
             midpoint = min (i + low) (high - 1);
             tokens = token_counter (join splitter (take midpoint splits))
         in if cl ! midpoint \<noteq> 0 \<and> tokens = 0 then Inl ZeroDivisionError
            else (let average' = (if cl ! midpoint \<noteq> 0
                                  then fl (of_int (cl ! midpoint) / of_int tokens)
                                  else average)
                  in if tokens > chunk_size
                     then merge_loop fl splits chunk_size splitter token_counter cl average' low midpoint
                     else merge_loop fl splits chunk_size splitter token_counter cl average'
                            (midpoint + 1) high))
      else Inr low)"
  by pat_completeness auto
termination
  by (relation "measure (\<lambda>(fl, splits, chunk_size, splitter, token_counter, cl, average, low, high).
        high - low)") auto

declare merge_loop.simps [simp del]

definition merge_splits ::
  "(rat \<Rightarrow> rat) \<Rightarrow> str list \<Rightarrow> int \<Rightarrow> str \<Rightarrow> (str \<Rightarrow> int) \<Rightarrow> error + (int \<times> str)" where
  "merge_splits fl splits chunk_size splitter token_counter =
     (case merge_loop fl splits chunk_size splitter token_counter (cumulative_lengths splits)
             (fl (1 / 5)) 0 (length splits + 1) of
        Inl e \<Rightarrow> Inl e
      | Inr low \<Rightarrow> Inr (int low - 1, join splitter (py_take (int low - 1) splits)))"

section \<open>The recursive orchestrator\<close>

text \<open>
  One pass of the loop body of \<open>chunk\<close> for a piece that is not skipped, in two halves.
  The first half either recurses into an oversized piece (\<open>rec\<close> is the recursive call)
  or merges the piece with its successors and marks the merged successors as skipped.
\<close>

definition process_split ::
  "(str \<Rightarrow> error + str list) \<Rightarrow> (rat \<Rightarrow> rat) \<Rightarrow> int \<Rightarrow> (str \<Rightarrow> int) \<Rightarrow> str \<Rightarrow> str list
     \<Rightarrow> nat \<Rightarrow> str \<Rightarrow> str list \<Rightarrow> nat set \<Rightarrow> error + (str list \<times> nat set)" where
  "process_split rec fl chunk_size token_counter splitter splits i split chunks skips =
     (if token_counter split > chunk_size
      then (case rec split of
              Inl e \<Rightarrow> Inl e
            | Inr sub \<Rightarrow> Inr (chunks @ sub, skips))
      else (case merge_splits fl (drop i splits) chunk_size splitter token_counter of
              Inl e \<Rightarrow> Inl e
            | Inr (final_split_in_chunk_i, new_chunk) \<Rightarrow>
                Inr (chunks @ [new_chunk],
                     skips \<union> set [i + 1 ..< nat (int i + final_split_in_chunk_i)])))"

text \<open>
  The second half puts a splitter that is not whitespace back: onto the last chunk when
  that fits, as a chunk of its own otherwise. \<open>chunks[-1]\<close> raises \<open>IndexError\<close> on an
  empty list.
\<close>

definition reattach_splitter ::
  "int \<Rightarrow> (str \<Rightarrow> int) \<Rightarrow> str \<Rightarrow> bool \<Rightarrow> str list \<Rightarrow> nat \<Rightarrow> str list \<Rightarrow> nat set
     \<Rightarrow> error + str list" where
  "reattach_splitter chunk_size token_counter splitter splitter_is_whitespace splits i chunks skips =
     (if \<not> splitter_is_whitespace
         \<and> \<not> (int i = int (length splits) - 1
               \<or> list_all (\<lambda>j. j \<in> skips) [i + 1 ..< length splits])
      then (if chunks = [] then Inl IndexError
            else if token_counter (last chunks @ splitter) \<le> chunk_size
                 then Inr (butlast chunks @ [last chunks @ splitter])
                 else Inr (chunks @ [splitter]))
      else Inr chunks)"

text \<open>The loop \<open>for i, split in enumerate(splits)\<close>, over the pairs still to come.\<close>

fun chunk_loop ::
  "(str \<Rightarrow> error + str list) \<Rightarrow> (rat \<Rightarrow> rat) \<Rightarrow> int \<Rightarrow> (str \<Rightarrow> int) \<Rightarrow> str \<Rightarrow> bool \<Rightarrow> str list
     \<Rightarrow> (nat \<times> str) list \<Rightarrow> str list \<Rightarrow> nat set \<Rightarrow> error + str list" where
  "chunk_loop rec fl chunk_size token_counter splitter splitter_is_whitespace splits
     [] chunks skips = Inr chunks"
| "chunk_loop rec fl chunk_size token_counter splitter splitter_is_whitespace splits
     ((i, split) # rest) chunks skips =
     (if i \<in> skips
      then chunk_loop rec fl chunk_size token_counter splitter splitter_is_whitespace splits
             rest chunks skips
      else (case process_split rec fl chunk_size token_counter splitter splits i split
                   chunks skips of
              Inl e \<Rightarrow> Inl e
            | Inr (chunks1, skips1) \<Rightarrow>
                (case reattach_splitter chunk_size token_counter splitter
                        splitter_is_whitespace splits i chunks1 skips1 of
                   Inl e \<Rightarrow> Inl e
                 | Inr chunks2 \<Rightarrow>
                     chunk_loop rec fl chunk_size token_counter splitter
                       splitter_is_whitespace splits rest chunks2 skips1)))"

text \<open>
  \<open>chunk\<close> calls itself on a piece, and nothing in the source bounds the depth of that
  recursion; the interpreter does, and raises \<open>RecursionError\<close> when its limit is
  reached. The first argument is the number of nested calls of \<open>chunk\<close> the interpreter
  still allows. The counter is a pure function here; the caches of the source follow
  in the next section.
\<close>

fun chunk_rec ::
  "nat \<Rightarrow> (rat \<Rightarrow> rat) \<Rightarrow> str \<Rightarrow> int \<Rightarrow> (str \<Rightarrow> int) \<Rightarrow> nat \<Rightarrow> error + str list" where
  "chunk_rec 0 fl text chunk_size token_counter recursion_depth = Inl RecursionError"
| "chunk_rec (Suc limit) fl text chunk_size token_counter recursion_depth =
     (case split_text text of
        Inl e \<Rightarrow> Inl e
      | Inr (splitter, splitter_is_whitespace, splits) \<Rightarrow>
          (case chunk_loop
                  (\<lambda>s. chunk_rec limit fl s chunk_size token_counter (recursion_depth + 1))
                  fl chunk_size token_counter splitter splitter_is_whitespace splits
                  (enumerate 0 splits) [] {} of
             Inl e \<Rightarrow> Inl e
           | Inr chunks \<Rightarrow>
               Inr (if recursion_depth = 0 then filter (\<lambda>c. c \<noteq> []) chunks else chunks)))"

text \<open>The call a user makes: \<open>_recursion_depth\<close> has its default, 0.\<close>

definition chunk :: "nat \<Rightarrow> (rat \<Rightarrow> rat) \<Rightarrow> str \<Rightarrow> int \<Rightarrow> (str \<Rightarrow> int) \<Rightarrow> error + str list" where
  "chunk limit fl text chunk_size token_counter = chunk_rec limit fl text chunk_size token_counter 0"

text \<open>Counters used in the examples: the number of code points, twice that, and zero.\<close>

definition len_counter :: "str \<Rightarrow> int" where
  "len_counter s = int (length s)"

definition double_len_counter :: "str \<Rightarrow> int" where
  "double_len_counter s = 2 * int (length s)"

definition zero_counter :: "str \<Rightarrow> int" where
  "zero_counter s = 0"

section \<open>The caches\<close>












section \<open>Notions used to state the properties\<close>

text \<open>
  A prefix of \<open>m\<close> pieces fits when the counter gives its joined text at most the budget;
  \<open>probe\<close> names the index \<open>midpoint\<close> that one pass of the search of \<open>merge_splits\<close>
  computes.
\<close>

definition fits :: "(str \<Rightarrow> int) \<Rightarrow> int \<Rightarrow> str \<Rightarrow> str list \<Rightarrow> nat \<Rightarrow> bool" where
  "fits token_counter chunk_size splitter splits m =
     (token_counter (join splitter (take m splits)) \<le> chunk_size)"

definition probe :: "(rat \<Rightarrow> rat) \<Rightarrow> int \<Rightarrow> int list \<Rightarrow> rat \<Rightarrow> nat \<Rightarrow> nat \<Rightarrow> nat" where
  "probe fl chunk_size cl average low high =
     min (bisect_left (slice low (high + 1) cl) (fl (fl (of_int chunk_size) * average)) + low)
         (high - 1)"










text \<open>
  A cache is sound when every stored count is the counter's and every stored list is what
  the function without caches returns once the interpreter allows enough depth. A
  sequence settles at a value when it has that value from some index on.
\<close>

definition settles :: "(nat \<Rightarrow> 'a) \<Rightarrow> 'a \<Rightarrow> bool" where
  "settles f x = (\<exists>N. \<forall>m \<ge> N. f m = x)"



section \<open>Splitting and joining\<close>

lemma split_from_nonempty: "split_from sep cur t \<noteq> []"
  by (induction sep cur t rule: split_from.induct) auto

lemma join_Cons_nonempty: "ps \<noteq> [] \<Longrightarrow> join sep (p # ps) = p @ sep @ join sep ps"
  by (cases ps) auto

lemma join_split_from: "sep \<noteq> [] \<Longrightarrow> join sep (split_from sep cur t) = cur @ t"
proof (induction sep cur t rule: split_from.induct)
  case (1 sep cur)
  then show ?case by simp
next
  case (2 sep cur c cs)
  show ?case
  proof (cases "prefix sep (c # cs)")
    case True
    then have "sep @ drop (length sep) (c # cs) = c # cs"
      by (metis append_eq_conv_conj prefix_def)
    with 2 True show ?thesis
      by (simp add: join_Cons_nonempty split_from_nonempty)
  next
    case False
    with 2 show ?thesis by simp
  qed
qed

lemma join_chars: "join [] (map (\<lambda>c. [c]) t) = t"
  by (induction t rule: induct_list012) auto

lemma py_split_join: "py_split t sep = Inr ps \<Longrightarrow> join sep ps = t"
  by (auto simp: py_split_def join_split_from split: if_splits)

lemma split_with_join: "split_with sep w t = Inr (d, w', ps) \<Longrightarrow> join d ps = t"
  by (auto simp: split_with_def py_split_join split: sum.splits)

lemma max_run_join: "max_run P t = Inr (d, w, ps) \<Longrightarrow> join d ps = t"
  by (auto simp: max_run_def split: sum.splits dest: split_with_join)

text \<open>
  Claim C7. Whatever \<open>_split_text\<close> returns for a fragment, joining the returned pieces
  with the returned delimiter gives the fragment back, also in the fallback where the
  delimiter is empty and the pieces are the single characters.
\<close>

theorem split_text_roundtrip:
  "split_text fragment = Inr (delimiter, is_whitespace, pieces) \<Longrightarrow>
   join delimiter pieces = fragment"
  unfolding split_text_def
  by (auto split: if_splits option.splits dest: max_run_join split_with_join simp: join_chars)

theorem split_text_roundtrip_witness:
  "split_text [97, 46, 98] = Inr ([46], False, [[97], [98]])
   \<and> join [46] [[97], [98]] = [97, 46, 98]"
proof -
  have h: "split_text [97, 46, 98] = Inr ([46], False, [[97], [98]])"
    by (simp add: split_text_def is_space_def NON_WHITESPACE_SEMANTIC_SPLITTERS_def
          split_with_def py_split_def)
  show ?thesis using h split_text_roundtrip [OF h] by simp
qed







section \<open>The search of the merge engine\<close>


lemma probe_bounds:
  "low < high \<Longrightarrow> low \<le> probe fl chunk_size cl average low high
                  \<and> probe fl chunk_size cl average low high < high"
  by (auto simp: probe_def min_def)

lemma merge_loop_done:
  "\<not> low < high \<Longrightarrow> merge_loop fl splits chunk_size splitter tc cl average low high = Inr low"
  by (subst merge_loop.simps) simp

lemma merge_loop_unfold:
  assumes "low < high"
    and "m = probe fl chunk_size cl average low high"
    and "tokens = tc (join splitter (take m splits))"
    and "average' = (if cl ! m \<noteq> 0 then fl (of_int (cl ! m) / of_int tokens) else average)"
  shows "merge_loop fl splits chunk_size splitter tc cl average low high =
     (if cl ! m \<noteq> 0 \<and> tokens = 0 then Inl ZeroDivisionError
      else if tokens > chunk_size
           then merge_loop fl splits chunk_size splitter tc cl average' low m
           else merge_loop fl splits chunk_size splitter tc cl average' (m + 1) high)"
  unfolding assms(2-4) using assms(1)
  by (subst merge_loop.simps) (simp add: probe_def Let_def)

text \<open>What the binary search of the merge engine returns, whatever it probes.\<close>

lemma merge_loop_result:
  assumes "merge_loop fl splits chunk_size splitter tc cl average low high = Inr r"
    and "low \<le> high"
  shows "low \<le> r \<and> r \<le> high
         \<and> (r = low \<or> fits tc chunk_size splitter splits (r - 1))
         \<and> (r = high \<or> \<not> fits tc chunk_size splitter splits r)"
  using assms
proof (induction "high - low" arbitrary: low high average rule: less_induct)
  case less
  show ?case
  proof (cases "low < high")
    case False
    with less.prems show ?thesis by (simp add: merge_loop_done)
  next
    case True
    define m where "m = probe fl chunk_size cl average low high"
    define tokens where "tokens = tc (join splitter (take m splits))"
    define average' where
      "average' = (if cl ! m \<noteq> 0 then fl (of_int (cl ! m) / of_int tokens) else average)"
    note u = merge_loop_unfold [where fl=fl and tc=tc and splits=splits and splitter=splitter and cl=cl,
      OF True m_def tokens_def average'_def]
    have mb: "low \<le> m" "m < high"
      using probe_bounds [OF True] by (simp_all add: m_def)
    show ?thesis
    proof (cases "tokens > chunk_size")
      case gt: True
      have run: "merge_loop fl splits chunk_size splitter tc cl average' low m = Inr r"
        using less.prems(1) gt unfolding u by (simp split: if_splits)
      have "low \<le> r \<and> r \<le> m
         \<and> (r = low \<or> fits tc chunk_size splitter splits (r - 1))
         \<and> (r = m \<or> \<not> fits tc chunk_size splitter splits r)"
        using less.hyps [OF _ run] mb by simp
      moreover have "\<not> fits tc chunk_size splitter splits m"
        using gt by (simp add: fits_def tokens_def)
      ultimately show ?thesis using mb by auto
    next
      case le: False
      have run: "merge_loop fl splits chunk_size splitter tc cl average' (m + 1) high = Inr r"
        using less.prems(1) le unfolding u by (simp split: if_splits)
      have "m + 1 \<le> r \<and> r \<le> high
         \<and> (r = m + 1 \<or> fits tc chunk_size splitter splits (r - 1))
         \<and> (r = high \<or> \<not> fits tc chunk_size splitter splits r)"
        using less.hyps [OF _ run] mb by simp
      moreover have "fits tc chunk_size splitter splits m"
        using le by (simp add: fits_def tokens_def)
      ultimately show ?thesis using mb by auto
    qed
  qed
qed









lemma merge_loop_zero_tokens:
  assumes "\<forall>m. tc (join splitter (take m splits)) = 0" and "0 \<le> chunk_size"
    and "low < high" and "cl ! (high - 1) \<noteq> 0"
  shows "merge_loop fl splits chunk_size splitter tc cl average low high = Inl ZeroDivisionError"
  using assms(3,4)
proof (induction "high - low" arbitrary: low average rule: less_induct)
  case less
  define m where "m = probe fl chunk_size cl average low high"
  define tokens where "tokens = tc (join splitter (take m splits))"
  define average' where
    "average' = (if cl ! m \<noteq> 0 then fl (of_int (cl ! m) / of_int tokens) else average)"
  note u = merge_loop_unfold [where fl=fl and tc=tc and splits=splits and splitter=splitter and cl=cl,
      OF less.prems(1) m_def tokens_def average'_def]
  have mb: "low \<le> m" "m < high"
    using probe_bounds [OF less.prems(1)] by (simp_all add: m_def)
  have tok: "tokens = 0"
    using assms(1) by (simp add: tokens_def)
  show ?case
  proof (cases "cl ! m \<noteq> 0")
    case True
    then show ?thesis unfolding u using tok by simp
  next
    case False
    then have "m \<noteq> high - 1" using less.prems(2) by auto
    with mb have lt: "m + 1 < high" by simp
    have "merge_loop fl splits chunk_size splitter tc cl average' (m + 1) high = Inl ZeroDivisionError"
      using less.hyps [of "m + 1" average'] less.prems lt mb by simp
    then show ?thesis unfolding u using tok False assms(2) by simp
  qed
qed

lemma merge_splits_result:
  assumes "merge_splits fl splits chunk_size splitter tc = Inr (k, merged)"
  shows "\<exists>r \<le> length splits + 1. k = int r - 1 \<and> merged = join splitter (py_take k splits)
           \<and> (r = 0 \<or> fits tc chunk_size splitter splits (r - 1))
           \<and> (r = length splits + 1 \<or> \<not> fits tc chunk_size splitter splits r)"
proof -
  from assms obtain r where
    r: "merge_loop fl splits chunk_size splitter tc (cumulative_lengths splits) (fl (1 / 5)) 0
          (length splits + 1) = Inr r"
    and k: "k = int r - 1" and t: "merged = join splitter (py_take k splits)"
    by (auto simp: merge_splits_def split: sum.splits)
  from merge_loop_result [OF r] k t show ?thesis by auto
qed


section \<open>What the merge engine returns\<close>











section \<open>Texts on which the chunker fails\<close>

lemma split_text_plain_char:
  assumes "\<not> is_space c" and "c \<notin> set NON_WHITESPACE_SEMANTIC_SPLITTERS"
  shows "split_text [c] = Inr ([], True, [[c]])"
proof -
  have "find (\<lambda>s. s \<in> set [c]) NON_WHITESPACE_SEMANTIC_SPLITTERS = None"
    using assms(2) by (simp add: find_None_iff)
  moreover have "c \<noteq> 10" "c \<noteq> 13" "c \<noteq> 9"
    using assms(1) by (auto simp: is_space_def)
  ultimately show ?thesis
    using assms(1) by (simp add: split_text_def)
qed

lemma split_text_letter_a: "split_text [97] = Inr ([], True, [[97]])"
  by (rule split_text_plain_char)
     (simp_all add: is_space_def NON_WHITESPACE_SEMANTIC_SPLITTERS_def)

lemma chunk_rec_plain_char_diverges:
  assumes "\<not> is_space c" and "c \<notin> set NON_WHITESPACE_SEMANTIC_SPLITTERS"
    and "chunk_size < token_counter [c]"
  shows "chunk_rec limit fl [c] chunk_size token_counter depth = Inl RecursionError"
proof (induction limit arbitrary: depth)
  case 0
  show ?case by simp
next
  case (Suc limit)
  then show ?case
    using assms by (simp add: split_text_plain_char enumerate_eq_zip process_split_def)
qed

text \<open>
  Claim C4 fails on the source. The text \<open>a\<close> has no splitter, so its only piece is the
  text itself; with two tokens against a budget of 1 the piece is over the budget and
  \<open>chunk\<close> calls itself on the same text again, without end: whatever depth the
  interpreter allows, the call ends in \<open>RecursionError\<close> and no chunk is emitted.
\<close>

theorem chunk_single_character_recursion_error:
  "double_len_counter [97] > 1
   \<and> chunk limit fl [97] 1 double_len_counter = Inl RecursionError"
proof -
  have "chunk_rec limit fl [97] 1 double_len_counter 0 = Inl RecursionError"
    by (rule chunk_rec_plain_char_diverges)
       (simp_all add: is_space_def NON_WHITESPACE_SEMANTIC_SPLITTERS_def double_len_counter_def)
  then show ?thesis by (simp add: chunk_def double_len_counter_def)
qed

lemma merge_splits_zero_counter:
  "merge_splits fl [[97]] 1 [] zero_counter = Inl ZeroDivisionError"
proof -
  have "merge_loop fl [[97]] 1 [] zero_counter (cumulative_lengths [[97]]) (fl (1 / 5)) 0
          (length [[97::nat]] + 1) = Inl ZeroDivisionError"
    by (rule merge_loop_zero_tokens)
       (simp_all add: zero_counter_def cumulative_lengths_def)
  then show ?thesis by (simp add: merge_splits_def)
qed

text \<open>
  Claim C10. The counter that is zero everywhere is pure and never negative, and with it
  the text \<open>a\<close> and the budget 1 make the engine divide by zero: the first prefix with a
  non-zero cumulative length is probed with zero tokens.
\<close>

theorem chunk_zero_counter_division_by_zero:
  "(\<forall>s. 0 \<le> zero_counter s)
   \<and> chunk (Suc limit) fl [97] 1 zero_counter = Inl ZeroDivisionError"
proof -
  have "chunk (Suc limit) fl [97] 1 zero_counter = Inl ZeroDivisionError"
    using merge_splits_zero_counter [of fl]
    by (simp add: chunk_def split_text_letter_a enumerate_eq_zip process_split_def zero_counter_def)
  then show ?thesis by (simp add: zero_counter_def)
qed

text \<open>
  Claim C5 fails on the source. \<open>max\<close> of the runs is the greatest run in the order of
  strings, not the longest: in \<open>a\n\nb\rc\<close> the runs are \<open>\n\n\<close> and \<open>\r\<close>, and the
  selector splits at \<open>\r\<close>, the shorter of the two.
\<close>

theorem split_text_picks_greatest_run:
  "findall_runs is_newline [97, 10, 10, 98, 13, 99] = [[10, 10], [13]]
   \<and> split_text [97, 10, 10, 98, 13, 99] = Inr ([13], True, [[97, 10, 10, 98], [99]])"
  by (simp add: split_text_def max_run_def py_max_def is_newline_def split_with_def py_split_def)

section \<open>The budget of the chunks\<close>















lemma chunk_example: "chunk 5 id [97, 10, 10, 98, 9, 99] 1 len_counter = Inr [[97], [98], [99]]"
  by code_simp


text \<open>
  Claim C8. No chunk returned by the call a user makes is the empty string: the outermost
  call filters the empty chunks out before it returns.
\<close>

theorem chunk_no_empty_chunk:
  "chunk limit fl text chunk_size token_counter = Inr chunks \<Longrightarrow> [] \<notin> set chunks"
  by (cases limit) (auto simp: chunk_def split: sum.splits)

theorem chunk_no_empty_chunk_witness:
  "chunk 5 id [97, 10, 10, 98, 9, 99] 1 len_counter = Inr [[97], [98], [99]]
   \<and> [] \<notin> set [[97], [98], [99 :: nat]]"
  using chunk_example chunk_no_empty_chunk [OF chunk_example] by simp

section \<open>The chunks lie in the text in order\<close>


































section \<open>Memoisation does not change the result\<close>



lemma settles_both:
  assumes "settles f x" and "settles g y"
  shows "\<exists>N. \<forall>m \<ge> N. f m = x \<and> g m = y"
proof -
  from assms obtain N M where "\<forall>m \<ge> N. f m = x" "\<forall>m \<ge> M. g m = y"
    by (auto simp: settles_def)
  then have "\<forall>m \<ge> max N M. f m = x \<and> g m = y" by simp
  then show ?thesis by blast
qed

















end
